theory Spec2Isabelle
  imports Complex_Main "HOL-Library.Monad_Syntax"
begin

section \<open>Numbers\<close>

text \<open>
  The simulation state of \<^verbatim>\<open>Space\<close> (positions, velocities, radii, screen size, pointer)
  holds JavaScript numbers. They are modelled as \<open>real\<close>: finite values with exact
  arithmetic (no rounding, no overflow). Addition, subtraction, multiplication, comparison
  and \<^verbatim>\<open>Math.sqrt\<close> of a sum of squares are total on finite numbers, so \<open>real\<close> follows
  them directly.

  Division is different: JavaScript does not raise on a zero divisor, it returns an
  infinity or NaN, and HOL's \<open>a / 0 = 0\<close> is not what the program computes. The values
  that \<^verbatim>\<open>draw\<close> computes with divisions and stores into the field buffer, and the floats
  of the shader that reads that buffer as a texture, are therefore of the type \<open>jsnum\<close>,
  which adds the three special values of IEEE 754 to the finite ones.
  A zero divisor is taken as \<open>+0\<close>; the only divisor of the program that can be zero is
  \<^verbatim>\<open>dist\<close>, the result of \<^verbatim>\<open>Math.sqrt\<close>, which is never \<open>-0\<close>.
\<close>

datatype jsnum = Fin real | PInf | NInf | NaN

fun jneg :: "jsnum \<Rightarrow> jsnum" where
  "jneg (Fin a) = Fin (- a)"
| "jneg PInf = NInf"
| "jneg NInf = PInf"
| "jneg NaN = NaN"

fun jadd :: "jsnum \<Rightarrow> jsnum \<Rightarrow> jsnum" where
  "jadd (Fin a) (Fin b) = Fin (a + b)"
| "jadd NaN _ = NaN"
| "jadd _ NaN = NaN"
| "jadd PInf NInf = NaN"
| "jadd NInf PInf = NaN"
| "jadd PInf _ = PInf"
| "jadd _ PInf = PInf"
| "jadd NInf _ = NInf"
| "jadd _ NInf = NInf"

fun jsign :: "bool \<Rightarrow> jsnum" where
  "jsign True = PInf"
| "jsign False = NInf"

fun jmul :: "jsnum \<Rightarrow> jsnum \<Rightarrow> jsnum" where
  "jmul (Fin a) (Fin b) = Fin (a * b)"
| "jmul NaN _ = NaN"
| "jmul _ NaN = NaN"
| "jmul PInf (Fin b) = (if b = 0 then NaN else jsign (0 < b))"
| "jmul NInf (Fin b) = (if b = 0 then NaN else jsign (b < 0))"
| "jmul (Fin a) PInf = (if a = 0 then NaN else jsign (0 < a))"
| "jmul (Fin a) NInf = (if a = 0 then NaN else jsign (a < 0))"
| "jmul PInf PInf = PInf"
| "jmul NInf NInf = PInf"
| "jmul PInf NInf = NInf"
| "jmul NInf PInf = NInf"

fun jdiv :: "jsnum \<Rightarrow> jsnum \<Rightarrow> jsnum" where
  "jdiv (Fin a) (Fin b) =
     (if b = 0 then (if a = 0 then NaN else jsign (0 < a)) else Fin (a / b))"
| "jdiv NaN _ = NaN"
| "jdiv _ NaN = NaN"
| "jdiv (Fin a) PInf = Fin 0"
| "jdiv (Fin a) NInf = Fin 0"
| "jdiv PInf (Fin b) = jsign (0 \<le> b)"
| "jdiv NInf (Fin b) = jsign (b < 0)"
| "jdiv PInf PInf = NaN"
| "jdiv PInf NInf = NaN"
| "jdiv NInf PInf = NaN"
| "jdiv NInf NInf = NaN"

instantiation jsnum :: "{zero, plus, minus, uminus, times, inverse}"
begin

definition zero_jsnum :: jsnum where "zero_jsnum = Fin 0"
definition plus_jsnum :: "jsnum \<Rightarrow> jsnum \<Rightarrow> jsnum" where "plus_jsnum a b = jadd a b"
definition uminus_jsnum :: "jsnum \<Rightarrow> jsnum" where "uminus_jsnum a = jneg a"
definition minus_jsnum :: "jsnum \<Rightarrow> jsnum \<Rightarrow> jsnum" where "minus_jsnum a b = jadd a (jneg b)"
definition times_jsnum :: "jsnum \<Rightarrow> jsnum \<Rightarrow> jsnum" where "times_jsnum a b = jmul a b"
definition divide_jsnum :: "jsnum \<Rightarrow> jsnum \<Rightarrow> jsnum" where "divide_jsnum a b = jdiv a b"
definition inverse_jsnum :: "jsnum \<Rightarrow> jsnum" where "inverse_jsnum a = jdiv (Fin 1) a"

instance ..

end

instance jsnum :: comm_monoid_add
proof
  fix a b c :: jsnum
  show "a + b + c = a + (b + c)"
    by (cases a; cases b; cases c) (simp_all add: plus_jsnum_def)
  show "a + b = b + a"
    by (cases a; cases b) (simp_all add: plus_jsnum_def)
  show "0 + a = a"
    by (cases a) (simp_all add: plus_jsnum_def zero_jsnum_def)
qed

text \<open>
  Comparison as IEEE 754 has it: every comparison with NaN is false, \<open>-Infinity\<close> is below
  and \<open>+Infinity\<close> above every finite number. Only the syntax of \<open><\<close> and \<open>\<le>\<close> is
  taken from the class \<open>ord\<close>; with NaN this is not an order.
\<close>

fun jless :: "jsnum \<Rightarrow> jsnum \<Rightarrow> bool" where
  "jless (Fin a) (Fin b) = (a < b)"
| "jless NaN _ = False"
| "jless _ NaN = False"
| "jless NInf NInf = False"
| "jless NInf _ = True"
| "jless _ NInf = False"
| "jless PInf _ = False"
| "jless _ PInf = True"

instantiation jsnum :: ord
begin

definition less_jsnum :: "jsnum \<Rightarrow> jsnum \<Rightarrow> bool" where
  "less_jsnum a b = jless a b"

definition less_eq_jsnum :: "jsnum \<Rightarrow> jsnum \<Rightarrow> bool" where
  "less_eq_jsnum a b = (jless a b \<or> (a = b \<and> a \<noteq> NaN))"

instance ..

end

section \<open>The simulation state\<close>

record metaball =
  x :: real
  y :: real
  xvel :: real
  yvel :: real
  radius :: real

text \<open>
  The fields of \<^verbatim>\<open>Space\<close>. The GL handles (\<^verbatim>\<open>VAO\<close>, \<^verbatim>\<open>texture\<close>, \<^verbatim>\<open>shader\<close>) carry no
  simulation state and are left out. \<open>draggedMetaballIndex\<close> is \<open>-1\<close> when no metaball
  is dragged.
\<close>

record space =
  screenWidth :: real
  screenHeight :: real
  gridWidth :: nat
  gridHeight :: nat
  isoLevel :: real
  data :: "jsnum list"
  metaballs :: "metaball list"
  clicking :: bool
  clickX :: real
  clickY :: real
  draggedMetaballIndex :: int

subsection \<open>\<^verbatim>\<open>step\<close>\<close>

text \<open>
  The body of the loop of \<^verbatim>\<open>step\<close> for the metaball at index \<open>i\<close>, in the order of
  the source: the drag-or-integrate conditional, then the four boundary conditionals
  (low x, low y, high x, high y), each reading what the ones before it wrote.
\<close>

definition dragOrMove :: "space \<Rightarrow> nat \<Rightarrow> metaball \<Rightarrow> metaball" where
  "dragOrMove s i ball =
     (if draggedMetaballIndex s = int i then
        (let newX = 0.1 * clickX s + 0.9 * x ball;
             newY = 0.1 * clickY s + 0.9 * y ball
         in ball\<lparr>xvel := newX - x ball, yvel := newY - y ball, x := newX, y := newY\<rparr>)
      else
        (let ball = ball\<lparr>x := x ball + xvel ball\<rparr>
         in ball\<lparr>y := y ball + yvel ball\<rparr>))"

definition bounceLowX :: "metaball \<Rightarrow> metaball" where
  "bounceLowX ball =
     (if x ball < radius ball then ball\<lparr>x := radius ball, xvel := - xvel ball\<rparr> else ball)"

definition bounceLowY :: "metaball \<Rightarrow> metaball" where
  "bounceLowY ball =
     (if y ball < radius ball then ball\<lparr>y := radius ball, yvel := - yvel ball\<rparr> else ball)"

definition bounceHighX :: "space \<Rightarrow> metaball \<Rightarrow> metaball" where
  "bounceHighX s ball =
     (if x ball > screenWidth s - radius ball
      then ball\<lparr>x := screenWidth s - radius ball, xvel := - xvel ball\<rparr> else ball)"

definition bounceHighY :: "space \<Rightarrow> metaball \<Rightarrow> metaball" where
  "bounceHighY s ball =
     (if y ball > screenHeight s - radius ball
      then ball\<lparr>y := screenHeight s - radius ball, yvel := - yvel ball\<rparr> else ball)"

definition stepBall :: "space \<Rightarrow> nat \<Rightarrow> metaball \<Rightarrow> metaball" where
  "stepBall s i ball =
     bounceHighY s (bounceHighX s (bounceLowY (bounceLowX (dragOrMove s i ball))))"

function stepLoop :: "nat \<Rightarrow> space \<Rightarrow> space" where
  "stepLoop i s =
     (if i < length (metaballs s)
      then stepLoop (i + 1)
             (s\<lparr>metaballs := (metaballs s)[i := stepBall s i (metaballs s ! i)]\<rparr>)
      else s)"
  by pat_completeness auto
termination
  by (relation "measure (\<lambda>(i, s). length (metaballs s) - i)") auto

definition step :: "space \<Rightarrow> space" where
  "step s = stepLoop 0 s"

text \<open>
  The boundary rule of one axis in the words of the specification (section 4.1): if
  position - radius < 0, clamp the position to the radius and negate the velocity; then,
  if position + radius exceeds the extent, clamp to extent - radius and negate the
  velocity. It is compared with the four conditionals of the source below.
\<close>

definition reflectAxis :: "real \<Rightarrow> real \<Rightarrow> real \<Rightarrow> real \<Rightarrow> real \<times> real" where
  "reflectAxis pos vel r extent =
     (let (p, v) = (if pos - r < 0 then (r, - vel) else (pos, vel))
      in if p + r > extent then (extent - r, - v) else (p, v))"

text \<open>Euclidean distance between \<open>(ax, ay)\<close> and \<open>(bx, by)\<close>, as \<^verbatim>\<open>onClick\<close> and \<^verbatim>\<open>draw\<close> compute it.\<close>

definition distance :: "real \<Rightarrow> real \<Rightarrow> real \<Rightarrow> real \<Rightarrow> real" where
  "distance ax ay bx by = sqrt ((ax - bx)\<^sup>2 + (ay - by)\<^sup>2)"

text \<open>The metaballs after the loop of \<^verbatim>\<open>step\<close> has run from index \<open>i\<close> to the end.\<close>

definition stepped :: "nat \<Rightarrow> space \<Rightarrow> metaball list" where
  "stepped i s = map (\<lambda>j. if i \<le> j then stepBall s j (metaballs s ! j) else metaballs s ! j)
                    [0..<length (metaballs s)]"

subsection \<open>\<^verbatim>\<open>onClick\<close>\<close>

text \<open>
  \<^verbatim>\<open>onClick\<close> reads \<^verbatim>\<open>metaballsWithDistances[0].distance\<close>. On an empty array the element
  is \<^verbatim>\<open>undefined\<close> and the property access throws a \<^verbatim>\<open>TypeError\<close>; the three assignments
  before it have already happened, so the outcome of a throw carries the state too.
\<close>

datatype js_error = TypeError

datatype outcome = Returns space | Throws js_error space

text \<open>
  An element of \<^verbatim>\<open>metaballsWithDistances\<close> is the triple (metaball, distance, index).
  \<^verbatim>\<open>Array.prototype.sort\<close> with the comparator \<^verbatim>\<open>a.distance - b.distance\<close> is a stable
  ascending sort by distance, which is what \<open>sort_key\<close> is.
\<close>

definition onClick :: "space \<Rightarrow> real \<Rightarrow> real \<Rightarrow> outcome" where
  "onClick s cx cy =
     (let clickRadius = 200;
          s = s\<lparr>clicking := True, clickX := cx, clickY := cy\<rparr>;
          metaballsWithDistances =
            map (\<lambda>(index, metaball).
                   (metaball, sqrt ((x metaball - cx)\<^sup>2 + (y metaball - cy)\<^sup>2), index))
                (enumerate 0 (metaballs s));
          sorted = sort_key (\<lambda>(metaball, d, index). d) metaballsWithDistances
      in case sorted of
           [] \<Rightarrow> Throws TypeError s
         | (metaball, d, index) # _ \<Rightarrow>
             if d < clickRadius then Returns (s\<lparr>draggedMetaballIndex := int index\<rparr>)
             else Returns s)"

definition onMove :: "space \<Rightarrow> real \<Rightarrow> real \<Rightarrow> space" where
  "onMove s cx cy = s\<lparr>clickX := cx, clickY := cy\<rparr>"

definition onRelease :: "space \<Rightarrow> space" where
  "onRelease s = s\<lparr>clicking := False, draggedMetaballIndex := - 1\<rparr>"

definition addMetaball :: "space \<Rightarrow> real \<Rightarrow> real \<Rightarrow> real \<Rightarrow> real \<Rightarrow> real \<Rightarrow> space" where
  "addMetaball s bx by bxvel byvel r =
     s\<lparr>metaballs := metaballs s @ [\<lparr>x = bx, y = by, xvel = bxvel, yvel = byvel, radius = r\<rparr>]\<rparr>"

subsection \<open>\<^verbatim>\<open>draw\<close>: the field buffer\<close>

text \<open>
  The body of the innermost loop of \<^verbatim>\<open>draw\<close>: what one metaball adds to \<^verbatim>\<open>sum\<close> (here \<open>sumSoFar\<close>) at the
  grid point \<open>(xpos, ypos)\<close>. The expression is the one of the source, evaluated on
  \<open>jsnum\<close>.
\<close>

definition accumulate :: "metaball \<Rightarrow> real \<Rightarrow> real \<Rightarrow> jsnum \<Rightarrow> jsnum" where
  "accumulate ball xpos ypos sumSoFar =
     (let dist = sqrt ((xpos - x ball)\<^sup>2 + (ypos - y ball)\<^sup>2);
          r = radius ball;
          l = 3 * r
      in if dist < l
         then sumSoFar + (Fin r / Fin dist - (Fin r * (Fin dist - Fin l)) / (Fin l * (Fin l - Fin r))
                     - Fin r / Fin l)
         else sumSoFar)"

function fieldLoop :: "metaball list \<Rightarrow> real \<Rightarrow> real \<Rightarrow> nat \<Rightarrow> jsnum \<Rightarrow> jsnum" where
  "fieldLoop ms xpos ypos i sumSoFar =
     (if i < length ms then fieldLoop ms xpos ypos (i + 1) (accumulate (ms ! i) xpos ypos sumSoFar)
      else sumSoFar)"
  by pat_completeness auto
termination
  by (relation "measure (\<lambda>(ms, xpos, ypos, i, sumSoFar). length ms - i)") auto

text \<open>
  A store into the \<^verbatim>\<open>Float32Array\<close>: an index past the end is ignored, the array never
  grows. The rounding of the stored value to single precision is not modelled.
\<close>

definition store :: "jsnum list \<Rightarrow> nat \<Rightarrow> jsnum \<Rightarrow> jsnum list" where
  "store buf k v = (if k < length buf then buf[k := v] else buf)"

text \<open>
  The loop over \<open>y\<close> for one \<open>x\<close>, and the loop over \<open>x\<close>. The metaballs, the grid size and
  the grid spacing are only read by the loops; the buffer is what they write.
\<close>

function drawRows ::
  "metaball list \<Rightarrow> nat \<Rightarrow> nat \<Rightarrow> real \<Rightarrow> nat \<Rightarrow> nat \<Rightarrow> jsnum list \<Rightarrow> jsnum list" where
  "drawRows ms gw gh gridSpacing gx gy buf =
     (if gy < gh
      then drawRows ms gw gh gridSpacing gx (gy + 1)
             (let xpos = real gx * gridSpacing;
                  ypos = real gy * gridSpacing;
                  sumSoFar = fieldLoop ms xpos ypos 0 (Fin 0)
              in store buf (gy * gw + gx) sumSoFar)
      else buf)"
  by pat_completeness auto
termination
  by (relation "measure (\<lambda>(ms, gw, gh, gridSpacing, gx, gy, buf). gh - gy)") auto

function drawCols ::
  "metaball list \<Rightarrow> nat \<Rightarrow> nat \<Rightarrow> real \<Rightarrow> nat \<Rightarrow> jsnum list \<Rightarrow> jsnum list" where
  "drawCols ms gw gh gridSpacing gx buf =
     (if gx < gw
      then drawCols ms gw gh gridSpacing (gx + 1) (drawRows ms gw gh gridSpacing gx 0 buf)
      else buf)"
  by pat_completeness auto
termination
  by (relation "measure (\<lambda>(ms, gw, gh, gridSpacing, gx, buf). gw - gx)") auto

text \<open>
  \<^verbatim>\<open>draw(gl, gridSpacing, radius)\<close>: the part that fills \<^verbatim>\<open>this.data\<close>. The parameter
  \<^verbatim>\<open>radius\<close> is not used by the source. The GL calls that follow upload the buffer as a
  texture of \<open>gridWidth \<times> gridHeight\<close> texels and issue \<open>drawCount\<close> vertices as \<^verbatim>\<open>gl.LINES\<close>.
\<close>

definition draw :: "space \<Rightarrow> real \<Rightarrow> real \<Rightarrow> space" where
  "draw s gridSpacing rad =
     s\<lparr>data := drawCols (metaballs s) (gridWidth s) (gridHeight s) gridSpacing 0 (data s)\<rparr>"

definition drawCount :: "space \<Rightarrow> int" where
  "drawCount s = 4 * (int (gridWidth s) - 1) * (int (gridHeight s) - 1)"

text \<open>
  The field in the words of the specification (section 4.2): the contribution of one
  metaball at a point, and the sum of the contributions of all metaballs.
\<close>

definition spec_contribution :: "metaball \<Rightarrow> real \<Rightarrow> real \<Rightarrow> jsnum" where
  "spec_contribution ball px py =
     (let dist = distance px py (x ball) (y ball);
          r = radius ball;
          l = 3 * r
      in if dist < l
         then Fin r / Fin dist - Fin r * (Fin dist - Fin l) / (Fin l * (Fin l - Fin r)) - Fin r / Fin l
         else Fin 0)"

definition spec_field :: "metaball list \<Rightarrow> real \<Rightarrow> real \<Rightarrow> jsnum" where
  "spec_field ms px py = (\<Sum>ball\<leftarrow>ms. spec_contribution ball px py)"

section \<open>The vertex shader\<close>

text \<open>
  The GLSL vertex shader runs once per vertex index. Its \<^verbatim>\<open>float\<close> values are \<open>jsnum\<close>:
  the texture holds whatever \<^verbatim>\<open>draw\<close> stored, an infinity included, and the arithmetic on
  them follows the same IEEE rules as above (exact on finite values). Its \<^verbatim>\<open>int\<close> values
  are \<open>int\<close> (no wrap-around: every index here is far below \<open>2^31\<close>). GLSL ES leaves the
  result of an integer division by zero unspecified; such a division makes the result of
  the model \<open>None\<close>. Integer operands are non-negative wherever the divisor is positive, so
  \<open>div\<close> and \<open>mod\<close> agree with GLSL there.
\<close>

type_synonym vec2 = "jsnum \<times> jsnum"
type_synonym vec3 = "jsnum \<times> jsnum \<times> jsnum"

definition vec3_xy :: "vec3 \<Rightarrow> vec2" where
  "vec3_xy v = (fst v, fst (snd v))"

definition vec3_z :: "vec3 \<Rightarrow> jsnum" where
  "vec3_z v = snd (snd v)"

definition vec2_add :: "vec2 \<Rightarrow> vec2 \<Rightarrow> vec2" where
  "vec2_add a b = (fst a + fst b, snd a + snd b)"

definition vec2_sub :: "vec2 \<Rightarrow> vec2 \<Rightarrow> vec2" where
  "vec2_sub a b = (fst a - fst b, snd a - snd b)"

definition vec2_scale :: "jsnum \<Rightarrow> vec2 \<Rightarrow> vec2" where
  "vec2_scale t a = (t * fst a, t * snd a)"











definition vertexInterp :: "real \<Rightarrow> vec3 \<Rightarrow> vec3 \<Rightarrow> vec2" where
  "vertexInterp level v1 v2 =
     (let t = (Fin level - vec3_z v1) / (vec3_z v2 - vec3_z v1)
      in vec2_add (vec3_xy v1) (vec2_scale t (vec2_sub (vec3_xy v2) (vec3_xy v1))))"









text \<open>
  The case table as the specification gives it (section 4.3), sixteen rows of four
  slots, and the number of slot pairs of a row that are not \<open>-1\<close>.
\<close>

definition spec_table :: "int list list" where
  "spec_table =
     [[- 1, - 1, - 1, - 1], [0, 1, - 1, - 1], [0, 3, - 1, - 1], [1, 3, - 1, - 1],
      [2, 3, - 1, - 1], [0, 3, 1, 2], [0, 2, - 1, - 1], [1, 2, - 1, - 1],
      [1, 2, - 1, - 1], [0, 2, - 1, - 1], [0, 1, 2, 3], [2, 3, - 1, - 1],
      [1, 3, - 1, - 1], [0, 3, - 1, - 1], [0, 1, - 1, - 1], [- 1, - 1, - 1, - 1]]"

definition spec_pairs :: "int list \<Rightarrow> nat" where
  "spec_pairs row =
     length (filter (\<lambda>(a, b). a \<noteq> - 1 \<and> b \<noteq> - 1) [(row ! 0, row ! 1), (row ! 2, row ! 3)])"




subsection \<open>Example states\<close>

definition narrowSpace :: space where
  "narrowSpace =
     \<lparr>screenWidth = 15, screenHeight = 100, gridWidth = 1, gridHeight = 1, isoLevel = 1,
      data = [Fin 0],
      metaballs = [\<lparr>x = 10, y = 50, xvel = - 1, yvel = 0, radius = 10\<rparr>],
      clicking = False, clickX = 0, clickY = 0, draggedMetaballIndex = - 1\<rparr>"

definition wideSpace :: space where
  "wideSpace =
     \<lparr>screenWidth = 100, screenHeight = 100, gridWidth = 1, gridHeight = 1, isoLevel = 1,
      data = [Fin 0],
      metaballs = [\<lparr>x = 10, y = 50, xvel = - 1, yvel = 0, radius = 10\<rparr>],
      clicking = False, clickX = 0, clickY = 0, draggedMetaballIndex = - 1\<rparr>"

definition wallSpace :: space where
  "wallSpace =
     \<lparr>screenWidth = 100, screenHeight = 100, gridWidth = 1, gridHeight = 1, isoLevel = 1,
      data = [Fin 0],
      metaballs = [\<lparr>x = 10, y = 50, xvel = 0, yvel = 0, radius = 10\<rparr>],
      clicking = True, clickX = 0, clickY = 50, draggedMetaballIndex = 0\<rparr>"

definition dragSpace :: space where
  "dragSpace =
     \<lparr>screenWidth = 100, screenHeight = 100, gridWidth = 1, gridHeight = 1, isoLevel = 1,
      data = [Fin 0],
      metaballs = [\<lparr>x = 20, y = 50, xvel = 0, yvel = 0, radius = 10\<rparr>],
      clicking = True, clickX = 60, clickY = 50, draggedMetaballIndex = 0\<rparr>"

definition tightSpace :: space where
  "tightSpace =
     \<lparr>screenWidth = 15, screenHeight = 100, gridWidth = 1, gridHeight = 1, isoLevel = 1,
      data = [Fin 0],
      metaballs = [\<lparr>x = 7, y = 50, xvel = 0, yvel = 0, radius = 10\<rparr>],
      clicking = False, clickX = 0, clickY = 0, draggedMetaballIndex = - 1\<rparr>"

definition cornerSpace :: space where
  "cornerSpace =
     \<lparr>screenWidth = 100, screenHeight = 100, gridWidth = 1, gridHeight = 1, isoLevel = 1,
      data = [Fin 0],
      metaballs = [\<lparr>x = 11, y = 89, xvel = - 2, yvel = 3, radius = 10\<rparr>],
      clicking = False, clickX = 0, clickY = 0, draggedMetaballIndex = - 1\<rparr>"

definition fieldSpace :: space where
  "fieldSpace =
     \<lparr>screenWidth = 100, screenHeight = 100, gridWidth = 2, gridHeight = 1, isoLevel = 1,
      data = [Fin 0, Fin 0],
      metaballs = [\<lparr>x = 0, y = 0, xvel = 0, yvel = 0, radius = 1\<rparr>],
      clicking = False, clickX = 0, clickY = 0, draggedMetaballIndex = - 1\<rparr>"

definition centreSpace :: space where
  "centreSpace =
     \<lparr>screenWidth = 100, screenHeight = 100, gridWidth = 1, gridHeight = 1, isoLevel = 1,
      data = [Fin 0],
      metaballs = [\<lparr>x = 0, y = 0, xvel = 0, yvel = 0, radius = 1\<rparr>],
      clicking = False, clickX = 0, clickY = 0, draggedMetaballIndex = - 1\<rparr>"


section \<open>Properties of \<^verbatim>\<open>step\<close>\<close>

lemma dragOrMove_radius: "radius (dragOrMove s i b) = radius b"
  by (simp add: dragOrMove_def Let_def)

lemma bounceLowX_radius: "radius (bounceLowX b) = radius b"
  by (simp add: bounceLowX_def)

lemma bounceLowY_radius: "radius (bounceLowY b) = radius b"
  by (simp add: bounceLowY_def)

lemma bounceHighX_radius: "radius (bounceHighX s b) = radius b"
  by (simp add: bounceHighX_def)

lemma bounceHighY_radius: "radius (bounceHighY s b) = radius b"
  by (simp add: bounceHighY_def)

lemmas bounce_radius =
  dragOrMove_radius bounceLowX_radius bounceLowY_radius bounceHighX_radius bounceHighY_radius

lemma stepBall_radius: "radius (stepBall s i b) = radius b"
  by (simp add: stepBall_def bounce_radius)


declare stepLoop.simps [simp del]

lemma dragOrMove_frame: "dragOrMove (s\<lparr>metaballs := m\<rparr>) i b = dragOrMove s i b"
  by (simp add: dragOrMove_def)

lemma bounceHighX_frame: "bounceHighX (s\<lparr>metaballs := m\<rparr>) b = bounceHighX s b"
  by (simp add: bounceHighX_def)

lemma bounceHighY_frame: "bounceHighY (s\<lparr>metaballs := m\<rparr>) b = bounceHighY s b"
  by (simp add: bounceHighY_def)

lemma stepBall_frame: "stepBall (s\<lparr>metaballs := m\<rparr>) i b = stepBall s i b"
  by (simp add: stepBall_def dragOrMove_frame bounceHighX_frame bounceHighY_frame)

lemma stepLoop_eq: "stepLoop i s = s\<lparr>metaballs := stepped i s\<rparr>"
proof (induction i s rule: stepLoop.induct)
  case (1 i s)
  show ?case
  proof (cases "i < length (metaballs s)")
    case True
    let ?s' = "s\<lparr>metaballs := (metaballs s)[i := stepBall s i (metaballs s ! i)]\<rparr>"
    have "stepLoop i s = stepLoop (i + 1) ?s'"
      using True by (subst stepLoop.simps) simp
    also have "\<dots> = ?s'\<lparr>metaballs := stepped (i + 1) ?s'\<rparr>"
      using 1 True by simp
    also have "stepped (i + 1) ?s' = stepped i s"
    proof (rule nth_equalityI)
      show "length (stepped (i + 1) ?s') = length (stepped i s)"
        by (simp add: stepped_def)
    next
      fix j assume "j < length (stepped (i + 1) ?s')"
      then have j: "j < length (metaballs s)" by (simp add: stepped_def)
      consider "j < i" | "j = i" | "i < j" by linarith
      then show "stepped (i + 1) ?s' ! j = stepped i s ! j"
        using j by cases (simp_all add: stepped_def stepBall_frame)
    qed
    finally show ?thesis by simp
  next
    case False
    have "stepped i s = metaballs s"
      using False by (auto simp: stepped_def intro!: nth_equalityI)
    then show ?thesis
      using False by (subst stepLoop.simps) simp
  qed
qed

lemma step_eq: "step s = s\<lparr>metaballs := stepped 0 s\<rparr>"
  by (simp add: step_def stepLoop_eq)

lemma step_length: "length (metaballs (step s)) = length (metaballs s)"
  by (simp add: step_eq stepped_def)

lemma step_nth:
  "i < length (metaballs s) \<Longrightarrow> metaballs (step s) ! i = stepBall s i (metaballs s ! i)"
  by (simp add: step_eq stepped_def)

lemma step_screen:
  "screenWidth (step s) = screenWidth s" "screenHeight (step s) = screenHeight s"
  by (simp_all add: step_eq)

lemma step_pointer:
  "clicking (step s) = clicking s" "clickX (step s) = clickX s" "clickY (step s) = clickY s"
  "draggedMetaballIndex (step s) = draggedMetaballIndex s"
  by (simp_all add: step_eq)

lemma step_radii: "map radius (metaballs (step s)) = map radius (metaballs s)"
  by (rule nth_equalityI) (simp_all add: step_length step_nth stepBall_radius)

text \<open>The x axis and the y axis of one tick, each through its two boundary conditionals.\<close>

lemma bounceX:
  "(x (bounceHighX s (bounceLowX m)), xvel (bounceHighX s (bounceLowX m))) =
     reflectAxis (x m) (xvel m) (radius m) (screenWidth s)"
  by (simp add: bounceHighX_def bounceLowX_def reflectAxis_def)

lemma bounceY:
  "(y (bounceHighY s (bounceLowY m)), yvel (bounceHighY s (bounceLowY m))) =
     reflectAxis (y m) (yvel m) (radius m) (screenHeight s)"
  by (simp add: bounceHighY_def bounceLowY_def reflectAxis_def)

lemma bounceLowY_x: "x (bounceLowY m) = x m" "xvel (bounceLowY m) = xvel m"
  by (simp_all add: bounceLowY_def)

lemma bounceHighY_x: "x (bounceHighY s m) = x m" "xvel (bounceHighY s m) = xvel m"
  by (simp_all add: bounceHighY_def)

lemma bounceLowX_y: "y (bounceLowX m) = y m" "yvel (bounceLowX m) = yvel m"
  by (simp_all add: bounceLowX_def)

lemma bounceHighX_y: "y (bounceHighX s m) = y m" "yvel (bounceHighX s m) = yvel m"
  by (simp_all add: bounceHighX_def)

lemma bounce_swap: "bounceHighX s (bounceLowY m) = bounceLowY (bounceHighX s m)"
  by (simp add: bounceHighX_def bounceLowY_def)

lemma stepBall_x:
  "(x (stepBall s i b), xvel (stepBall s i b)) =
     reflectAxis (x (dragOrMove s i b)) (xvel (dragOrMove s i b)) (radius b) (screenWidth s)"
  unfolding stepBall_def bounceHighY_x bounce_swap bounceLowY_x
  by (simp only: bounceX dragOrMove_radius)

lemma stepBall_y:
  "(y (stepBall s i b), yvel (stepBall s i b)) =
     reflectAxis (y (dragOrMove s i b)) (yvel (dragOrMove s i b)) (radius b) (screenHeight s)"
proof -
  let ?m = "bounceLowX (dragOrMove s i b)"
  have "stepBall s i b = bounceHighX s (bounceHighY s (bounceLowY ?m))"
    by (simp add: stepBall_def bounceHighX_def bounceHighY_def)
  then show ?thesis
    by (simp only: bounceHighX_y bounceY bounceLowX_y bounceLowX_radius dragOrMove_radius)
qed

lemma steps_frame:
  "(step ^^ n) s = s\<lparr>metaballs := metaballs ((step ^^ n) s)\<rparr>"
proof (induction n)
  case 0
  show ?case by simp
next
  case (Suc n)
  have "(step ^^ Suc n) s = step ((step ^^ n) s)" by simp
  also have "\<dots> = ((step ^^ n) s)\<lparr>metaballs := metaballs (step ((step ^^ n) s))\<rparr>"
    by (subst step_eq) (simp add: step_eq)
  also have "\<dots> = s\<lparr>metaballs := metaballs (step ((step ^^ n) s))\<rparr>"
    by (subst Suc.IH) simp
  finally show ?case by simp
qed

lemma steps_length: "length (metaballs ((step ^^ n) s)) = length (metaballs s)"
  by (induction n) (simp_all add: step_length)

lemma steps_radii: "map radius (metaballs ((step ^^ n) s)) = map radius (metaballs s)"
  by (induction n) (simp_all add: step_radii)

lemma steps_radius:
  "i < length (metaballs s) \<Longrightarrow> radius (metaballs ((step ^^ n) s) ! i) = radius (metaballs s ! i)"
  using steps_radii [of n s] steps_length [of n s]
  by (metis nth_map)

lemma steps_fields:
  "screenWidth ((step ^^ n) s) = screenWidth s" "screenHeight ((step ^^ n) s) = screenHeight s"
  "clickX ((step ^^ n) s) = clickX s" "clickY ((step ^^ n) s) = clickY s"
  "draggedMetaballIndex ((step ^^ n) s) = draggedMetaballIndex s"
  by (induction n) (simp_all add: step_screen step_pointer)

lemma reflectAxis_range:
  assumes "2 * r \<le> w"
  shows "r \<le> fst (reflectAxis p v r w) \<and> fst (reflectAxis p v r w) \<le> w - r"
  using assms by (simp add: reflectAxis_def)

lemma reflectAxis_inside:
  assumes "r \<le> p" "p \<le> w - r"
  shows "reflectAxis p v r w = (p, v)"
  using assms by (simp add: reflectAxis_def)

lemma reflectAxis_contact:
  assumes "2 * r \<le> w" "p < r \<or> w - r < p"
  shows "snd (reflectAxis p v r w) = - v"
  using assms by (auto simp add: reflectAxis_def)

lemma stepBall_in_box:
  assumes "2 * radius b \<le> screenWidth s" "2 * radius b \<le> screenHeight s"
  shows "radius b \<le> x (stepBall s i b) \<and> x (stepBall s i b) \<le> screenWidth s - radius b \<and>
         radius b \<le> y (stepBall s i b) \<and> y (stepBall s i b) \<le> screenHeight s - radius b"
proof -
  have "x (stepBall s i b) =
          fst (reflectAxis (x (dragOrMove s i b)) (xvel (dragOrMove s i b)) (radius b) (screenWidth s))"
    by (simp add: stepBall_x [symmetric])
  moreover have "y (stepBall s i b) =
          fst (reflectAxis (y (dragOrMove s i b)) (yvel (dragOrMove s i b)) (radius b) (screenHeight s))"
    by (simp add: stepBall_y [symmetric])
  ultimately show ?thesis
    using reflectAxis_range [OF assms(1)] reflectAxis_range [OF assms(2)] by simp
qed

text \<open>
  Claim C10. \<^verbatim>\<open>step\<close> changes nothing but the positions and velocities of the metaballs:
  every field of the space other than \<open>metaballs\<close> is as before (in particular the clicking
  flag, the pointer position and the dragged index), the number of metaballs is as before,
  and so is the radius of each of them.
\<close>

theorem step_frame:
  "step s = s\<lparr>metaballs := metaballs (step s)\<rparr> \<and>
   length (metaballs (step s)) = length (metaballs s) \<and>
   map radius (metaballs (step s)) = map radius (metaballs s) \<and>
   clicking (step s) = clicking s \<and> clickX (step s) = clickX s \<and> clickY (step s) = clickY s \<and>
   draggedMetaballIndex (step s) = draggedMetaballIndex s"
  by (simp add: step_length step_radii step_pointer) (simp add: step_eq)

text \<open>
  Claim C6, as amended. For a metaball that is not the dragged one, \<^verbatim>\<open>step\<close> first adds the
  velocity to the position and then applies, on each axis, the boundary rule of the
  specification (\<open>reflectAxis\<close>): clamp to the radius and negate the velocity if
  position - radius < 0, then clamp to extent - radius and negate the velocity if
  position + radius exceeds the extent. A ball at \<open>x = radius\<close> with \<open>xvel < 0\<close> ends the
  tick at \<open>x = radius\<close> with the velocity negated, provided the ball fits the screen on
  that axis (\<open>2 * radius \<le> screenWidth\<close>). On a narrower screen the second conditional
  fires as well and negates the velocity back, which the counterexample shows.
\<close>

theorem step_free_ball:
  assumes "i < length (metaballs s)" and "draggedMetaballIndex s \<noteq> int i"
  shows "(x (metaballs (step s) ! i), xvel (metaballs (step s) ! i)) =
           reflectAxis (x (metaballs s ! i) + xvel (metaballs s ! i)) (xvel (metaballs s ! i))
             (radius (metaballs s ! i)) (screenWidth s) \<and>
         (y (metaballs (step s) ! i), yvel (metaballs (step s) ! i)) =
           reflectAxis (y (metaballs s ! i) + yvel (metaballs s ! i)) (yvel (metaballs s ! i))
             (radius (metaballs s ! i)) (screenHeight s) \<and>
         radius (metaballs (step s) ! i) = radius (metaballs s ! i) \<and>
         (x (metaballs s ! i) = radius (metaballs s ! i) \<and> xvel (metaballs s ! i) < 0 \<and>
          2 * radius (metaballs s ! i) \<le> screenWidth s \<longrightarrow>
            x (metaballs (step s) ! i) = radius (metaballs s ! i) \<and>
            xvel (metaballs (step s) ! i) = - xvel (metaballs s ! i))"
proof -
  let ?b = "metaballs s ! i"
  have m: "x (dragOrMove s i ?b) = x ?b + xvel ?b" "xvel (dragOrMove s i ?b) = xvel ?b"
          "y (dragOrMove s i ?b) = y ?b + yvel ?b" "yvel (dragOrMove s i ?b) = yvel ?b"
    using assms(2) by (simp_all add: dragOrMove_def Let_def)
  have sx: "(x (stepBall s i ?b), xvel (stepBall s i ?b)) =
              reflectAxis (x ?b + xvel ?b) (xvel ?b) (radius ?b) (screenWidth s)"
    using stepBall_x [of s i ?b] by (simp only: m)
  have sy: "(y (stepBall s i ?b), yvel (stepBall s i ?b)) =
              reflectAxis (y ?b + yvel ?b) (yvel ?b) (radius ?b) (screenHeight s)"
    using stepBall_y [of s i ?b] by (simp only: m)
  have wall: "x (stepBall s i ?b) = radius ?b \<and> xvel (stepBall s i ?b) = - xvel ?b"
    if "x ?b = radius ?b" "xvel ?b < 0" "2 * radius ?b \<le> screenWidth s"
  proof -
    have "reflectAxis (x ?b + xvel ?b) (xvel ?b) (radius ?b) (screenWidth s) = (radius ?b, - xvel ?b)"
      using that by (simp add: reflectAxis_def)
    with sx show ?thesis by simp
  qed
  show ?thesis
    using sx sy wall by (simp add: step_nth [OF assms(1)] stepBall_radius)
qed

theorem step_free_ball_witness:
  "0 < length (metaballs wideSpace) \<and> draggedMetaballIndex wideSpace \<noteq> int 0 \<and>
   x (metaballs wideSpace ! 0) = radius (metaballs wideSpace ! 0) \<and>
   xvel (metaballs wideSpace ! 0) < 0 \<and>
   2 * radius (metaballs wideSpace ! 0) \<le> screenWidth wideSpace \<and>
   x (metaballs (step wideSpace) ! 0) = 10 \<and> xvel (metaballs (step wideSpace) ! 0) = 1"
  using step_free_ball [of 0 wideSpace] by (simp add: wideSpace_def)

theorem step_free_ball_counterexample:
  "draggedMetaballIndex narrowSpace \<noteq> int 0 \<and>
   x (metaballs narrowSpace ! 0) = radius (metaballs narrowSpace ! 0) \<and>
   xvel (metaballs narrowSpace ! 0) < 0 \<and>
   x (metaballs (step narrowSpace) ! 0) = 5 \<and>
   xvel (metaballs (step narrowSpace) ! 0) = - 1 \<and>
   \<not> (x (metaballs (step narrowSpace) ! 0) = radius (metaballs narrowSpace ! 0) \<and>
      xvel (metaballs (step narrowSpace) ! 0) = - xvel (metaballs narrowSpace ! 0))"
proof -
  have "metaballs (step narrowSpace) ! 0 = stepBall narrowSpace 0 (metaballs narrowSpace ! 0)"
    by (rule step_nth) (simp add: narrowSpace_def)
  also have "\<dots> = \<lparr>x = 5, y = 50, xvel = - 1, yvel = 0, radius = 10\<rparr>"
    by (simp add: narrowSpace_def stepBall_def dragOrMove_def bounceLowX_def bounceLowY_def
          bounceHighX_def bounceHighY_def)
  finally show ?thesis by (simp add: narrowSpace_def)
qed

lemma distance_scale:
  assumes "0 \<le> c"
  shows "distance (px + c * (ax - px)) (py + c * (ay - py)) px py = c * distance ax ay px py"
proof -
  have "(c * (ax - px))\<^sup>2 + (c * (ay - py))\<^sup>2 = c\<^sup>2 * ((ax - px)\<^sup>2 + (ay - py)\<^sup>2)"
    by (simp add: power_mult_distrib distrib_left)
  then have "sqrt ((c * (ax - px))\<^sup>2 + (c * (ay - py))\<^sup>2) = c * sqrt ((ax - px)\<^sup>2 + (ay - py)\<^sup>2)"
    using assms by (simp add: real_sqrt_mult)
  then show ?thesis by (simp add: distance_def)
qed

lemma distance_same_y: "distance ax ay bx ay = \<bar>ax - bx\<bar>"
  by (simp add: distance_def)

lemma dragOrMove_dragged:
  assumes "draggedMetaballIndex s = int i"
  shows "dragOrMove s i b =
           b\<lparr>xvel := (0.1 * clickX s + 0.9 * x b) - x b, yvel := (0.1 * clickY s + 0.9 * y b) - y b,
             x := 0.1 * clickX s + 0.9 * x b, y := 0.1 * clickY s + 0.9 * y b\<rparr>"
  using assms by (simp add: dragOrMove_def Let_def)

lemma stepBall_no_clamp:
  assumes "radius b \<le> x (dragOrMove s i b)" "x (dragOrMove s i b) \<le> screenWidth s - radius b"
    and "radius b \<le> y (dragOrMove s i b)" "y (dragOrMove s i b) \<le> screenHeight s - radius b"
  shows "stepBall s i b = dragOrMove s i b"
  using assms
  by (simp add: stepBall_def bounceLowX_def bounceLowY_def bounceHighX_def bounceHighY_def
        dragOrMove_radius)

text \<open>One dragged tick whose blended position needs no clamping.\<close>

lemma drag_tick:
  assumes i: "i < length (metaballs s)" and d: "draggedMetaballIndex s = int i"
    and box: "radius (metaballs s ! i) \<le> 0.1 * clickX s + 0.9 * x (metaballs s ! i)"
             "0.1 * clickX s + 0.9 * x (metaballs s ! i) \<le> screenWidth s - radius (metaballs s ! i)"
             "radius (metaballs s ! i) \<le> 0.1 * clickY s + 0.9 * y (metaballs s ! i)"
             "0.1 * clickY s + 0.9 * y (metaballs s ! i) \<le> screenHeight s - radius (metaballs s ! i)"
  shows "metaballs (step s) ! i = dragOrMove s i (metaballs s ! i)"
    and "distance (x (metaballs (step s) ! i)) (y (metaballs (step s) ! i)) (clickX s) (clickY s) =
           0.9 * distance (x (metaballs s ! i)) (y (metaballs s ! i)) (clickX s) (clickY s)"
proof -
  let ?b = "metaballs s ! i"
  have m: "x (dragOrMove s i ?b) = 0.1 * clickX s + 0.9 * x ?b"
          "y (dragOrMove s i ?b) = 0.1 * clickY s + 0.9 * y ?b"
    by (simp_all add: dragOrMove_dragged [OF d])
  have "stepBall s i ?b = dragOrMove s i ?b"
    by (rule stepBall_no_clamp) (simp_all only: m box)
  then show eq: "metaballs (step s) ! i = dragOrMove s i ?b"
    by (simp add: step_nth [OF i])
  have "distance (x (dragOrMove s i ?b)) (y (dragOrMove s i ?b)) (clickX s) (clickY s) =
        distance (clickX s + 0.9 * (x ?b - clickX s)) (clickY s + 0.9 * (y ?b - clickY s))
          (clickX s) (clickY s)"
  proof -
    have e: "0.1 * p + 0.9 * a = p + 0.9 * (a - p)" for p a :: real
      by argo
    show ?thesis by (simp only: m e)
  qed
  also have "\<dots> = 0.9 * distance (x ?b) (y ?b) (clickX s) (clickY s)"
    by (rule distance_scale) simp
  finally show "distance (x (metaballs (step s) ! i)) (y (metaballs (step s) ! i)) (clickX s) (clickY s) =
           0.9 * distance (x ?b) (y ?b) (clickX s) (clickY s)"
    by (simp only: eq)
qed

lemma steps_in_box:
  assumes "i < length (metaballs s)"
    and "2 * radius (metaballs s ! i) \<le> screenWidth s"
    and "2 * radius (metaballs s ! i) \<le> screenHeight s"
  shows "radius (metaballs s ! i) \<le> x (metaballs ((step ^^ Suc k) s) ! i) \<and>
         x (metaballs ((step ^^ Suc k) s) ! i) \<le> screenWidth s - radius (metaballs s ! i) \<and>
         radius (metaballs s ! i) \<le> y (metaballs ((step ^^ Suc k) s) ! i) \<and>
         y (metaballs ((step ^^ Suc k) s) ! i) \<le> screenHeight s - radius (metaballs s ! i)"
proof -
  let ?t = "(step ^^ k) s"
  have i': "i < length (metaballs ?t)"
    using assms(1) by (simp add: steps_length)
  have r: "radius (metaballs ?t ! i) = radius (metaballs s ! i)"
    using assms(1) by (rule steps_radius)
  have "metaballs ((step ^^ Suc k) s) ! i = stepBall ?t i (metaballs ?t ! i)"
    using step_nth [OF i'] by simp
  moreover have "2 * radius (metaballs ?t ! i) \<le> screenWidth ?t"
    "2 * radius (metaballs ?t ! i) \<le> screenHeight ?t"
    using assms(2,3) by (simp_all add: r steps_fields)
  ultimately show ?thesis
    using stepBall_in_box [of "metaballs ?t ! i" ?t i] by (simp add: r steps_fields)
qed

lemma stepBall_corner:
  assumes "2 * radius b \<le> screenWidth s" "2 * radius b \<le> screenHeight s"
    and "x (dragOrMove s i b) < radius b \<or> screenWidth s - radius b < x (dragOrMove s i b)"
    and "y (dragOrMove s i b) < radius b \<or> screenHeight s - radius b < y (dragOrMove s i b)"
  shows "xvel (stepBall s i b) = - xvel (dragOrMove s i b) \<and>
         yvel (stepBall s i b) = - yvel (dragOrMove s i b)"
proof -
  have "xvel (stepBall s i b) =
          snd (reflectAxis (x (dragOrMove s i b)) (xvel (dragOrMove s i b)) (radius b) (screenWidth s))"
    by (simp add: stepBall_x [symmetric])
  moreover have "yvel (stepBall s i b) =
          snd (reflectAxis (y (dragOrMove s i b)) (yvel (dragOrMove s i b)) (radius b) (screenHeight s))"
    by (simp add: stepBall_y [symmetric])
  ultimately show ?thesis
    using reflectAxis_contact [OF assms(1) assms(3)] reflectAxis_contact [OF assms(2) assms(4)]
    by simp
qed

text \<open>
  Claim C3, as amended. For a metaball whose diameter fits the screen
  (\<open>2 * radius \<le> screenWidth\<close> and \<open>2 * radius \<le> screenHeight\<close>), dragged or not and from
  any starting position and velocity, after any number \<open>n \<ge> 1\<close> of calls of \<^verbatim>\<open>step\<close> the
  position lies in \<open>[radius, screenWidth - radius]\<close> on the x axis and in
  \<open>[radius, screenHeight - radius]\<close> on the y axis. When the position that the first
  conditional of the tick produces is out of range on both axes (a corner contact), both
  velocities are negated in that same tick. Without the assumption on the diameter the
  interval is empty and the claim fails, as the counterexample shows.
\<close>

theorem step_keeps_ball_on_screen:
  assumes "i < length (metaballs s)"
    and "2 * radius (metaballs s ! i) \<le> screenWidth s"
    and "2 * radius (metaballs s ! i) \<le> screenHeight s"
    and "0 < n"
  shows "radius (metaballs s ! i) \<le> x (metaballs ((step ^^ n) s) ! i) \<and>
         x (metaballs ((step ^^ n) s) ! i) \<le> screenWidth s - radius (metaballs s ! i) \<and>
         radius (metaballs s ! i) \<le> y (metaballs ((step ^^ n) s) ! i) \<and>
         y (metaballs ((step ^^ n) s) ! i) \<le> screenHeight s - radius (metaballs s ! i) \<and>
         ((x (dragOrMove s i (metaballs s ! i)) < radius (metaballs s ! i) \<or>
           screenWidth s - radius (metaballs s ! i) < x (dragOrMove s i (metaballs s ! i))) \<and>
          (y (dragOrMove s i (metaballs s ! i)) < radius (metaballs s ! i) \<or>
           screenHeight s - radius (metaballs s ! i) < y (dragOrMove s i (metaballs s ! i))) \<longrightarrow>
          xvel (metaballs (step s) ! i) = - xvel (dragOrMove s i (metaballs s ! i)) \<and>
          yvel (metaballs (step s) ! i) = - yvel (dragOrMove s i (metaballs s ! i)))"
proof -
  obtain k where n: "n = Suc k"
    using assms(4) by (cases n) simp_all
  show ?thesis
    unfolding n
    using steps_in_box [OF assms(1-3), of k] stepBall_corner [OF assms(2,3), of i]
    by (simp only: step_nth [OF assms(1)]) blast
qed

theorem step_keeps_ball_on_screen_witness:
  "0 < length (metaballs cornerSpace) \<and>
   2 * radius (metaballs cornerSpace ! 0) \<le> screenWidth cornerSpace \<and>
   2 * radius (metaballs cornerSpace ! 0) \<le> screenHeight cornerSpace \<and>
   0 < Suc 0 \<and>
   x (dragOrMove cornerSpace 0 (metaballs cornerSpace ! 0)) = 9 \<and>
   y (dragOrMove cornerSpace 0 (metaballs cornerSpace ! 0)) = 92 \<and>
   10 \<le> x (metaballs ((step ^^ Suc 0) cornerSpace) ! 0) \<and>
   x (metaballs ((step ^^ Suc 0) cornerSpace) ! 0) \<le> 90 \<and>
   10 \<le> y (metaballs ((step ^^ Suc 0) cornerSpace) ! 0) \<and>
   y (metaballs ((step ^^ Suc 0) cornerSpace) ! 0) \<le> 90 \<and>
   xvel (metaballs (step cornerSpace) ! 0) = 2 \<and>
   yvel (metaballs (step cornerSpace) ! 0) = - 3"
  using step_keeps_ball_on_screen [of 0 cornerSpace "Suc 0"]
  by (simp add: cornerSpace_def dragOrMove_def)

theorem step_keeps_ball_on_screen_counterexample:
  "0 < radius (metaballs tightSpace ! 0) \<and>
   x (metaballs (step tightSpace) ! 0) = 5 \<and>
   radius (metaballs (step tightSpace) ! 0) = 10 \<and>
   \<not> (radius (metaballs (step tightSpace) ! 0) \<le> x (metaballs (step tightSpace) ! 0) \<and>
      x (metaballs (step tightSpace) ! 0) \<le>
        screenWidth (step tightSpace) - radius (metaballs (step tightSpace) ! 0))"
proof -
  have "metaballs (step tightSpace) ! 0 = stepBall tightSpace 0 (metaballs tightSpace ! 0)"
    by (rule step_nth) (simp add: tightSpace_def)
  also have "\<dots> = \<lparr>x = 5, y = 50, xvel = 0, yvel = 0, radius = 10\<rparr>"
    by (simp add: tightSpace_def stepBall_def dragOrMove_def bounceLowX_def bounceLowY_def
          bounceHighX_def bounceHighY_def)
  finally show ?thesis by (simp add: tightSpace_def)
qed

lemma drag_ticks:
  assumes i: "i < length (metaballs s)" and d: "draggedMetaballIndex s = int i"
    and px: "radius (metaballs s ! i) \<le> clickX s" "clickX s \<le> screenWidth s - radius (metaballs s ! i)"
    and py: "radius (metaballs s ! i) \<le> clickY s" "clickY s \<le> screenHeight s - radius (metaballs s ! i)"
    and inX: "radius (metaballs s ! i) \<le> x (metaballs s ! i)"
            "x (metaballs s ! i) \<le> screenWidth s - radius (metaballs s ! i)"
    and inY: "radius (metaballs s ! i) \<le> y (metaballs s ! i)"
            "y (metaballs s ! i) \<le> screenHeight s - radius (metaballs s ! i)"
  shows "distance (x (metaballs ((step ^^ n) s) ! i)) (y (metaballs ((step ^^ n) s) ! i))
           (clickX s) (clickY s) =
         0.9 ^ n * distance (x (metaballs s ! i)) (y (metaballs s ! i)) (clickX s) (clickY s) \<and>
         radius (metaballs s ! i) \<le> x (metaballs ((step ^^ n) s) ! i) \<and>
         x (metaballs ((step ^^ n) s) ! i) \<le> screenWidth s - radius (metaballs s ! i) \<and>
         radius (metaballs s ! i) \<le> y (metaballs ((step ^^ n) s) ! i) \<and>
         y (metaballs ((step ^^ n) s) ! i) \<le> screenHeight s - radius (metaballs s ! i)"
proof (induction n)
  case 0
  show ?case using inX inY by simp
next
  case (Suc n)
  let ?t = "(step ^^ n) s"
  let ?r = "radius (metaballs s ! i)"
  have i': "i < length (metaballs ?t)"
    using i by (simp add: steps_length)
  have d': "draggedMetaballIndex ?t = int i"
    using d by (simp add: steps_fields)
  have r: "radius (metaballs ?t ! i) = ?r"
    using i by (rule steps_radius)
  have f: "clickX ?t = clickX s" "clickY ?t = clickY s"
    "screenWidth ?t = screenWidth s" "screenHeight ?t = screenHeight s"
    by (simp_all add: steps_fields)
  have box: "?r \<le> 0.1 * clickX s + 0.9 * x (metaballs ?t ! i)"
    "0.1 * clickX s + 0.9 * x (metaballs ?t ! i) \<le> screenWidth s - ?r"
    "?r \<le> 0.1 * clickY s + 0.9 * y (metaballs ?t ! i)"
    "0.1 * clickY s + 0.9 * y (metaballs ?t ! i) \<le> screenHeight s - ?r"
    using Suc.IH px py by linarith+
  have tick: "metaballs (step ?t) ! i = dragOrMove ?t i (metaballs ?t ! i)"
    "distance (x (metaballs (step ?t) ! i)) (y (metaballs (step ?t) ! i)) (clickX s) (clickY s) =
       0.9 * distance (x (metaballs ?t ! i)) (y (metaballs ?t ! i)) (clickX s) (clickY s)"
    using drag_tick [OF i' d'] box by (simp_all only: r f)
  have pos: "x (metaballs (step ?t) ! i) = 0.1 * clickX s + 0.9 * x (metaballs ?t ! i)"
    "y (metaballs (step ?t) ! i) = 0.1 * clickY s + 0.9 * y (metaballs ?t ! i)"
    by (simp_all add: tick(1) dragOrMove_dragged [OF d'] f)
  have "distance (x (metaballs (step ?t) ! i)) (y (metaballs (step ?t) ! i)) (clickX s) (clickY s) =
        0.9 ^ Suc n * distance (x (metaballs s ! i)) (y (metaballs s ! i)) (clickX s) (clickY s)"
    using tick(2) Suc.IH by simp
  then show ?case
    using box by (simp add: pos)
qed

text \<open>
  Claim C5, as amended. For the dragged metaball, \<^verbatim>\<open>step\<close> sets the position to
  \<open>0.1 * pointer + 0.9 * current\<close> and the velocity to the new position minus the current
  one, and then runs the four boundary conditionals on the result. When the blended
  position needs no clamping, the distance to the pointer after the tick is \<open>0.9\<close> times
  the distance before it; with the pointer held fixed at a point of the box
  \<open>[radius, screenWidth - radius] \<times> [radius, screenHeight - radius]\<close> and the ball in that
  box, the distance after \<open>n\<close> ticks is \<open>0.9 ^ n\<close> times the initial one. With the pointer
  closer to a wall than the radius the clamp stops the ball and the distance does not
  shrink, as the counterexample shows.
\<close>

theorem step_dragged_ball:
  assumes "i < length (metaballs s)" and "draggedMetaballIndex s = int i"
  shows "metaballs (step s) ! i =
           bounceHighY s (bounceHighX s (bounceLowY (bounceLowX
             ((metaballs s ! i)
                \<lparr>xvel := (0.1 * clickX s + 0.9 * x (metaballs s ! i)) - x (metaballs s ! i),
                 yvel := (0.1 * clickY s + 0.9 * y (metaballs s ! i)) - y (metaballs s ! i),
                 x := 0.1 * clickX s + 0.9 * x (metaballs s ! i),
                 y := 0.1 * clickY s + 0.9 * y (metaballs s ! i)\<rparr>)))) \<and>
         (radius (metaballs s ! i) \<le> 0.1 * clickX s + 0.9 * x (metaballs s ! i) \<and>
          0.1 * clickX s + 0.9 * x (metaballs s ! i) \<le> screenWidth s - radius (metaballs s ! i) \<and>
          radius (metaballs s ! i) \<le> 0.1 * clickY s + 0.9 * y (metaballs s ! i) \<and>
          0.1 * clickY s + 0.9 * y (metaballs s ! i) \<le> screenHeight s - radius (metaballs s ! i) \<longrightarrow>
            x (metaballs (step s) ! i) = 0.1 * clickX s + 0.9 * x (metaballs s ! i) \<and>
            y (metaballs (step s) ! i) = 0.1 * clickY s + 0.9 * y (metaballs s ! i) \<and>
            distance (x (metaballs (step s) ! i)) (y (metaballs (step s) ! i)) (clickX s) (clickY s) =
              0.9 * distance (x (metaballs s ! i)) (y (metaballs s ! i)) (clickX s) (clickY s)) \<and>
         (radius (metaballs s ! i) \<le> clickX s \<and> clickX s \<le> screenWidth s - radius (metaballs s ! i) \<and>
          radius (metaballs s ! i) \<le> clickY s \<and> clickY s \<le> screenHeight s - radius (metaballs s ! i) \<and>
          radius (metaballs s ! i) \<le> x (metaballs s ! i) \<and>
          x (metaballs s ! i) \<le> screenWidth s - radius (metaballs s ! i) \<and>
          radius (metaballs s ! i) \<le> y (metaballs s ! i) \<and>
          y (metaballs s ! i) \<le> screenHeight s - radius (metaballs s ! i) \<longrightarrow>
            clickX ((step ^^ n) s) = clickX s \<and> clickY ((step ^^ n) s) = clickY s \<and>
            distance (x (metaballs ((step ^^ n) s) ! i)) (y (metaballs ((step ^^ n) s) ! i))
              (clickX s) (clickY s) =
            0.9 ^ n * distance (x (metaballs s ! i)) (y (metaballs s ! i)) (clickX s) (clickY s))"
proof (intro conjI impI)
  show "metaballs (step s) ! i =
           bounceHighY s (bounceHighX s (bounceLowY (bounceLowX
             ((metaballs s ! i)
                \<lparr>xvel := (0.1 * clickX s + 0.9 * x (metaballs s ! i)) - x (metaballs s ! i),
                 yvel := (0.1 * clickY s + 0.9 * y (metaballs s ! i)) - y (metaballs s ! i),
                 x := 0.1 * clickX s + 0.9 * x (metaballs s ! i),
                 y := 0.1 * clickY s + 0.9 * y (metaballs s ! i)\<rparr>))))"
    by (simp only: step_nth [OF assms(1)] stepBall_def dragOrMove_dragged [OF assms(2)])
next
  assume box: "radius (metaballs s ! i) \<le> 0.1 * clickX s + 0.9 * x (metaballs s ! i) \<and>
          0.1 * clickX s + 0.9 * x (metaballs s ! i) \<le> screenWidth s - radius (metaballs s ! i) \<and>
          radius (metaballs s ! i) \<le> 0.1 * clickY s + 0.9 * y (metaballs s ! i) \<and>
          0.1 * clickY s + 0.9 * y (metaballs s ! i) \<le> screenHeight s - radius (metaballs s ! i)"
  have tick: "metaballs (step s) ! i = dragOrMove s i (metaballs s ! i)"
    using drag_tick(1) [OF assms] box by blast
  show "x (metaballs (step s) ! i) = 0.1 * clickX s + 0.9 * x (metaballs s ! i)"
    by (simp add: tick dragOrMove_dragged [OF assms(2)])
  show "y (metaballs (step s) ! i) = 0.1 * clickY s + 0.9 * y (metaballs s ! i)"
    by (simp add: tick dragOrMove_dragged [OF assms(2)])
  show "distance (x (metaballs (step s) ! i)) (y (metaballs (step s) ! i)) (clickX s) (clickY s) =
              0.9 * distance (x (metaballs s ! i)) (y (metaballs s ! i)) (clickX s) (clickY s)"
    using drag_tick(2) [OF assms] box by blast
next
  show "clickX ((step ^^ n) s) = clickX s" by (simp add: steps_fields)
  show "clickY ((step ^^ n) s) = clickY s" by (simp add: steps_fields)
next
  assume "radius (metaballs s ! i) \<le> clickX s \<and> clickX s \<le> screenWidth s - radius (metaballs s ! i) \<and>
          radius (metaballs s ! i) \<le> clickY s \<and> clickY s \<le> screenHeight s - radius (metaballs s ! i) \<and>
          radius (metaballs s ! i) \<le> x (metaballs s ! i) \<and>
          x (metaballs s ! i) \<le> screenWidth s - radius (metaballs s ! i) \<and>
          radius (metaballs s ! i) \<le> y (metaballs s ! i) \<and>
          y (metaballs s ! i) \<le> screenHeight s - radius (metaballs s ! i)"
  then show "distance (x (metaballs ((step ^^ n) s) ! i)) (y (metaballs ((step ^^ n) s) ! i))
              (clickX s) (clickY s) =
            0.9 ^ n * distance (x (metaballs s ! i)) (y (metaballs s ! i)) (clickX s) (clickY s)"
    using drag_ticks [OF assms, of n] by blast
qed

theorem step_dragged_ball_witness:
  "0 < length (metaballs dragSpace) \<and> draggedMetaballIndex dragSpace = int 0 \<and>
   radius (metaballs dragSpace ! 0) \<le> clickX dragSpace \<and>
   clickX dragSpace \<le> screenWidth dragSpace - radius (metaballs dragSpace ! 0) \<and>
   radius (metaballs dragSpace ! 0) \<le> clickY dragSpace \<and>
   clickY dragSpace \<le> screenHeight dragSpace - radius (metaballs dragSpace ! 0) \<and>
   x (metaballs (step dragSpace) ! 0) = 24 \<and>
   y (metaballs (step dragSpace) ! 0) = 50 \<and>
   distance (x (metaballs (step dragSpace) ! 0)) (y (metaballs (step dragSpace) ! 0)) 60 50 = 36 \<and>
   distance (x (metaballs ((step ^^ 2) dragSpace) ! 0)) (y (metaballs ((step ^^ 2) dragSpace) ! 0))
     60 50 = 0.9 ^ 2 * 40"
  using step_dragged_ball [of 0 dragSpace 2]
  by (simp add: dragSpace_def distance_same_y bounceLowX_def bounceLowY_def
        bounceHighX_def bounceHighY_def)

theorem step_dragged_ball_counterexample:
  "draggedMetaballIndex wallSpace = int 0 \<and> clickX wallSpace = 0 \<and> clickY wallSpace = 50 \<and>
   distance (x (metaballs wallSpace ! 0)) (y (metaballs wallSpace ! 0)) 0 50 = 10 \<and>
   distance (x (metaballs (step wallSpace) ! 0)) (y (metaballs (step wallSpace) ! 0)) 0 50 = 10 \<and>
   distance (x (metaballs (step wallSpace) ! 0)) (y (metaballs (step wallSpace) ! 0)) 0 50 \<noteq>
     0.9 * distance (x (metaballs wallSpace ! 0)) (y (metaballs wallSpace ! 0)) 0 50"
proof -
  have "metaballs (step wallSpace) ! 0 = stepBall wallSpace 0 (metaballs wallSpace ! 0)"
    by (rule step_nth) (simp add: wallSpace_def)
  also have "\<dots> = \<lparr>x = 10, y = 50, xvel = 1, yvel = 0, radius = 10\<rparr>"
    by (simp add: wallSpace_def stepBall_def dragOrMove_def bounceLowX_def bounceLowY_def
          bounceHighX_def bounceHighY_def)
  finally show ?thesis by (simp add: wallSpace_def distance_same_y)
qed

section \<open>Properties of \<^verbatim>\<open>onClick\<close> and \<^verbatim>\<open>draw\<close>\<close>

declare fieldLoop.simps [simp del] drawRows.simps [simp del] drawCols.simps [simp del]

lemma accumulate_spec:
  "accumulate ball xpos ypos sumSoFar = sumSoFar + spec_contribution ball xpos ypos"
  by (simp add: accumulate_def spec_contribution_def distance_def Let_def zero_jsnum_def [symmetric])

lemma fieldLoop_sum:
  "fieldLoop ms xpos ypos i sumSoFar =
     sumSoFar + (\<Sum>ball\<leftarrow>drop i ms. spec_contribution ball xpos ypos)"
proof (induction ms xpos ypos i sumSoFar rule: fieldLoop.induct)
  case (1 ms xpos ypos i sumSoFar)
  show ?case
  proof (cases "i < length ms")
    case True
    have "fieldLoop ms xpos ypos i sumSoFar =
            fieldLoop ms xpos ypos (i + 1) (accumulate (ms ! i) xpos ypos sumSoFar)"
      using True by (subst fieldLoop.simps) simp
    also have "\<dots> = accumulate (ms ! i) xpos ypos sumSoFar +
                     (\<Sum>ball\<leftarrow>drop (i + 1) ms. spec_contribution ball xpos ypos)"
      using 1 True by simp
    also have "\<dots> = sumSoFar + (\<Sum>ball\<leftarrow>(ms ! i) # drop (i + 1) ms. spec_contribution ball xpos ypos)"
      by (simp add: accumulate_spec add.assoc)
    also have "(ms ! i) # drop (i + 1) ms = drop i ms"
      using True by (simp add: Cons_nth_drop_Suc)
    finally show ?thesis .
  next
    case False
    then show ?thesis by (subst fieldLoop.simps) simp
  qed
qed

lemma fieldLoop_spec: "fieldLoop ms xpos ypos 0 (Fin 0) = spec_field ms xpos ypos"
  by (simp add: fieldLoop_sum spec_field_def zero_jsnum_def [symmetric])

lemma store_length: "length (store buf k v) = length buf"
  by (simp add: store_def)

lemma store_nth: "j < length buf \<Longrightarrow> store buf k v ! j = (if j = k then v else buf ! j)"
  by (simp add: store_def)

lemma drawRows_length: "length (drawRows ms gw gh gs gx gy buf) = length buf"
proof (induction ms gw gh gs gx gy buf rule: drawRows.induct)
  case (1 ms gw gh gs gx gy buf)
  show ?case
  proof (cases "gy < gh")
    case True
    then show ?thesis
      using 1 by (subst drawRows.simps) (simp add: store_length)
  next
    case False
    then show ?thesis by (subst drawRows.simps) simp
  qed
qed

lemma drawRows_nth:
  assumes "gx < gw" "k < length buf"
  shows "drawRows ms gw gh gs gx gy buf ! k =
           (if k mod gw = gx \<and> gy \<le> k div gw \<and> k div gw < gh
            then spec_field ms (real gx * gs) (real (k div gw) * gs) else buf ! k)"
  using assms
proof (induction ms gw gh gs gx gy buf rule: drawRows.induct)
  case (1 ms gw gh gs gx gy buf)
  show ?case
  proof (cases "gy < gh")
    case True
    let ?buf' = "store buf (gy * gw + gx) (spec_field ms (real gx * gs) (real gy * gs))"
    have unf: "drawRows ms gw gh gs gx gy buf = drawRows ms gw gh gs gx (gy + 1) ?buf'"
      using True by (subst drawRows.simps) (simp add: fieldLoop_spec)
    have k': "k < length ?buf'" using "1.prems" by (simp add: store_length)
    have ih: "drawRows ms gw gh gs gx (gy + 1) ?buf' ! k =
           (if k mod gw = gx \<and> gy + 1 \<le> k div gw \<and> k div gw < gh
            then spec_field ms (real gx * gs) (real (k div gw) * gs) else ?buf' ! k)"
      using "1.IH" [OF True "1.prems"(1)] k'
      by (simp add: fieldLoop_spec Let_def)
    have idx: "k = gy * gw + gx \<longleftrightarrow> k mod gw = gx \<and> k div gw = gy"
      using "1.prems"(1) by (metis add.commute div_mult_self3 div_less mod_mult_self3 mod_less
          add_cancel_left_left mult.commute div_mult_mod_eq less_nat_zero_code neq0_conv)
    show ?thesis
      unfolding unf ih
      using "1.prems"(2) True by (auto simp: store_nth idx)
  next
    case False
    then show ?thesis by (subst drawRows.simps) auto
  qed
qed


lemma drawCols_nth:
  assumes "k < length buf"
  shows "drawCols ms gw gh gs gx buf ! k =
           (if gx \<le> k mod gw \<and> k mod gw < gw \<and> k div gw < gh
            then spec_field ms (real (k mod gw) * gs) (real (k div gw) * gs) else buf ! k)"
  using assms
proof (induction ms gw gh gs gx buf rule: drawCols.induct)
  case (1 ms gw gh gs gx buf)
  show ?case
  proof (cases "gx < gw")
    case True
    let ?buf' = "drawRows ms gw gh gs gx 0 buf"
    have unf: "drawCols ms gw gh gs gx buf = drawCols ms gw gh gs (gx + 1) ?buf'"
      using True by (subst drawCols.simps) simp
    have k': "k < length ?buf'" using "1.prems" by (simp add: drawRows_length)
    have ih: "drawCols ms gw gh gs (gx + 1) ?buf' ! k =
           (if gx + 1 \<le> k mod gw \<and> k mod gw < gw \<and> k div gw < gh
            then spec_field ms (real (k mod gw) * gs) (real (k div gw) * gs) else ?buf' ! k)"
      using "1.IH" [OF True k'] .
    show ?thesis
      unfolding unf ih drawRows_nth [OF True "1.prems"]
      using True by auto
  next
    case False
    then show ?thesis by (subst drawCols.simps) auto
  qed
qed

lemma grid_index:
  fixes gx gy gw gh :: nat
  assumes "gx < gw" "gy < gh"
  shows "gy * gw + gx < gw * gh" "(gy * gw + gx) mod gw = gx" "(gy * gw + gx) div gw = gy"
proof -
  have "gy * gw + gx < gy * gw + gw" using assms(1) by simp
  also have "\<dots> = (gy + 1) * gw" by simp
  also have "\<dots> \<le> gh * gw" using assms(2) by (intro mult_le_mono1) simp
  finally show "gy * gw + gx < gw * gh" by (simp add: mult.commute)
  show "(gy * gw + gx) mod gw = gx" using assms(1) by simp
  show "(gy * gw + gx) div gw = gy" using assms(1) by simp
qed

lemma draw_nth:
  assumes "gx < gridWidth s" "gy < gridHeight s"
    and "length (data s) = gridWidth s * gridHeight s"
  shows "data (draw s gs rad) ! (gy * gridWidth s + gx) =
           spec_field (metaballs s) (real gx * gs) (real gy * gs)"
  using assms grid_index [OF assms(1,2)]
  by (simp add: draw_def drawCols_nth)

lemmas jsnum_ops =
  plus_jsnum_def minus_jsnum_def times_jsnum_def divide_jsnum_def zero_jsnum_def

lemma distance_zero_iff: "distance px py bx by = 0 \<longleftrightarrow> px = bx \<and> py = by"
  by (simp add: distance_def sum_power2_eq_zero_iff)

lemma distance_nonneg: "0 \<le> distance px py bx by"
  by (simp add: distance_def)

lemma spec_contribution_far:
  "3 * radius ball \<le> distance px py (x ball) (y ball) \<Longrightarrow> spec_contribution ball px py = Fin 0"
  by (simp add: spec_contribution_def Let_def)

lemma spec_contribution_real:
  assumes "0 < distance px py (x ball) (y ball)"
    and "distance px py (x ball) (y ball) < 3 * radius ball"
  shows "spec_contribution ball px py =
           Fin (radius ball / distance px py (x ball) (y ball)
                - radius ball * (distance px py (x ball) (y ball) - 3 * radius ball)
                    / (3 * radius ball * (3 * radius ball - radius ball))
                - radius ball / (3 * radius ball))"
proof -
  have r: "0 < radius ball" using assms by linarith
  show ?thesis
    using assms r by (simp add: spec_contribution_def Let_def jsnum_ops)
qed

lemma spec_contribution_centre:
  assumes "0 < radius ball" "x ball = px" "y ball = py"
  shows "spec_contribution ball px py = PInf"
proof -
  have "distance px py (x ball) (y ball) = 0"
    using assms by (simp add: distance_zero_iff)
  then show ?thesis
    using assms(1) by (simp add: spec_contribution_def Let_def jsnum_ops)
qed

lemma spec_contribution_finite:
  assumes "\<not> (0 < radius ball \<and> x ball = px \<and> y ball = py)"
  shows "\<exists>v. spec_contribution ball px py = Fin v"
proof (cases "distance px py (x ball) (y ball) < 3 * radius ball")
  case True
  then have r: "0 < radius ball"
    using distance_nonneg [of px py "x ball" "y ball"] by linarith
  with assms have "distance px py (x ball) (y ball) \<noteq> 0"
    by (auto simp: distance_zero_iff)
  then have "0 < distance px py (x ball) (y ball)"
    using distance_nonneg [of px py "x ball" "y ball"] by linarith
  then show ?thesis
    using spec_contribution_real [OF _ True] by blast
next
  case False
  then show ?thesis by (simp add: spec_contribution_far)
qed

lemma sum_list_Fin:
  assumes "\<forall>c \<in> set cs. \<exists>v. c = Fin v"
  shows "\<exists>v. sum_list cs = Fin v"
  using assms
proof (induction cs)
  case Nil
  show ?case by (simp add: zero_jsnum_def)
next
  case (Cons c cs)
  then obtain v w where "c = Fin v" "sum_list cs = Fin w" by auto
  then show ?case by (simp add: plus_jsnum_def)
qed

lemma sum_list_PInf:
  assumes "\<forall>c \<in> set cs. c = PInf \<or> (\<exists>v. c = Fin v)" and "PInf \<in> set cs"
  shows "sum_list cs = PInf"
  using assms
proof (induction cs)
  case Nil
  then show ?case by simp
next
  case (Cons c cs)
  show ?case
  proof (cases "PInf \<in> set cs")
    case True
    then have "sum_list cs = PInf" using Cons by simp
    moreover have "c = PInf \<or> (\<exists>v. c = Fin v)" using Cons.prems by simp
    ultimately show ?thesis by (auto simp: plus_jsnum_def)
  next
    case False
    then have c: "c = PInf" using Cons.prems by simp
    have "\<forall>d \<in> set cs. \<exists>v. d = Fin v" using Cons.prems(1) False by auto
    then obtain w where "sum_list cs = Fin w" using sum_list_Fin by blast
    with c show ?thesis by (simp add: plus_jsnum_def)
  qed
qed

lemma spec_field_centre:
  assumes "\<exists>ball \<in> set ms. 0 < radius ball \<and> x ball = px \<and> y ball = py"
  shows "spec_field ms px py = PInf"
  unfolding spec_field_def
proof (rule sum_list_PInf)
  show "\<forall>c \<in> set (map (\<lambda>ball. spec_contribution ball px py) ms). c = PInf \<or> (\<exists>v. c = Fin v)"
    using spec_contribution_centre spec_contribution_finite by (auto simp: image_iff) blast
  show "PInf \<in> set (map (\<lambda>ball. spec_contribution ball px py) ms)"
    using assms spec_contribution_centre by (force simp: image_iff)
qed

lemma spec_field_far:
  assumes "\<forall>ball \<in> set ms. 3 * radius ball \<le> distance px py (x ball) (y ball)"
  shows "spec_field ms px py = Fin 0"
  using assms unfolding spec_field_def
  by (induction ms) (simp_all add: spec_contribution_far jsnum_ops)

text \<open>
  Claim C2. For grid indices \<open>gx < gridWidth\<close> and \<open>gy < gridHeight\<close>, on a buffer of
  \<open>gridWidth * gridHeight\<close> entries, after \<^verbatim>\<open>draw\<close> the entry at index
  \<open>gy * gridWidth + gx\<close> is the sum, over all metaballs, of the contribution of the
  specification at the grid point \<open>(gx * gridSpacing, gy * gridSpacing)\<close>: with \<open>dist\<close> the
  distance to the centre and \<open>l = 3 * r\<close>, the value
  \<open>r / dist - r * (dist - l) / (l * (l - r)) - r / l\<close> when \<open>dist < l\<close> (an ordinary real
  number when \<open>0 < dist\<close>) and 0 when \<open>dist \<ge> l\<close>. A grid point at distance at least
  \<open>3 * r\<close> from every metaball has the field value 0.
\<close>

theorem draw_field:
  assumes "gx < gridWidth s" and "gy < gridHeight s"
    and "length (data s) = gridWidth s * gridHeight s"
  shows "data (draw s gs rad) ! (gy * gridWidth s + gx) =
           spec_field (metaballs s) (real gx * gs) (real gy * gs) \<and>
         (\<forall>ball. 0 < distance (real gx * gs) (real gy * gs) (x ball) (y ball) \<and>
                 distance (real gx * gs) (real gy * gs) (x ball) (y ball) < 3 * radius ball \<longrightarrow>
            spec_contribution ball (real gx * gs) (real gy * gs) =
              Fin (radius ball / distance (real gx * gs) (real gy * gs) (x ball) (y ball)
                   - radius ball * (distance (real gx * gs) (real gy * gs) (x ball) (y ball)
                                    - 3 * radius ball)
                       / (3 * radius ball * (3 * radius ball - radius ball))
                   - radius ball / (3 * radius ball))) \<and>
         ((\<forall>ball \<in> set (metaballs s).
              3 * radius ball \<le> distance (real gx * gs) (real gy * gs) (x ball) (y ball)) \<longrightarrow>
            data (draw s gs rad) ! (gy * gridWidth s + gx) = Fin 0)"
  using draw_nth [OF assms] spec_contribution_real spec_field_far
  by (metis (no_types, lifting))

theorem draw_field_witness:
  "1 < gridWidth fieldSpace \<and> 0 < gridHeight fieldSpace \<and>
   length (data fieldSpace) = gridWidth fieldSpace * gridHeight fieldSpace \<and>
   data (draw fieldSpace 1 0) ! 1 = Fin 1 \<and>
   data (draw fieldSpace 3 0) ! 1 = Fin 0"
  using draw_field [of 1 fieldSpace 0 1 0] draw_field [of 1 fieldSpace 0 3 0]
  by (simp add: fieldSpace_def spec_field_def spec_contribution_def distance_def jsnum_ops)

text \<open>
  Claim C8, as amended. \<^verbatim>\<open>draw\<close> has no special case for \<open>dist = 0\<close>. At a grid point
  that is exactly the centre of a metaball of positive radius the loop body divides by
  zero: on a finite running sum it yields \<open>+Infinity\<close>, the contribution is neither
  skipped nor clamped, and \<open>+Infinity\<close> is the value stored in the buffer.
\<close>

theorem draw_centre:
  assumes "gx < gridWidth s" and "gy < gridHeight s"
    and "length (data s) = gridWidth s * gridHeight s"
  shows "(\<forall>ball a. 0 < radius ball \<and> x ball = real gx * gs \<and> y ball = real gy * gs \<longrightarrow>
            accumulate ball (real gx * gs) (real gy * gs) (Fin a) = PInf) \<and>
         ((\<exists>ball \<in> set (metaballs s).
             0 < radius ball \<and> x ball = real gx * gs \<and> y ball = real gy * gs) \<longrightarrow>
            data (draw s gs rad) ! (gy * gridWidth s + gx) = PInf)"
proof -
  have "accumulate ball (real gx * gs) (real gy * gs) (Fin a) = PInf"
    if "0 < radius ball \<and> x ball = real gx * gs \<and> y ball = real gy * gs" for ball a
    using that spec_contribution_centre [of ball "real gx * gs" "real gy * gs"]
    by (simp add: accumulate_spec plus_jsnum_def)
  moreover have "data (draw s gs rad) ! (gy * gridWidth s + gx) = PInf"
    if "\<exists>ball \<in> set (metaballs s).
             0 < radius ball \<and> x ball = real gx * gs \<and> y ball = real gy * gs"
    using spec_field_centre [OF that] by (simp add: draw_nth [OF assms])
  ultimately show ?thesis by blast
qed

theorem draw_centre_witness:
  "0 < gridWidth fieldSpace \<and> 0 < gridHeight fieldSpace \<and>
   length (data fieldSpace) = gridWidth fieldSpace * gridHeight fieldSpace \<and>
   (\<exists>ball \<in> set (metaballs fieldSpace). 0 < radius ball \<and> x ball = real 0 * 1 \<and> y ball = real 0 * 1) \<and>
   data (draw fieldSpace 1 0) ! 0 = PInf"
  using draw_centre [of 0 fieldSpace 0 1 0]
  by (simp add: fieldSpace_def)

theorem draw_centre_counterexample:
  "distance (real 0 * 1) (real 0 * 1) (x (metaballs centreSpace ! 0)) (y (metaballs centreSpace ! 0)) = 0 \<and>
   data (draw centreSpace 1 0) ! 0 = PInf \<and>
   data (draw centreSpace 1 0) ! 0 \<noteq> Fin 0"
proof -
  have "data (draw centreSpace 1 0) ! (0 * gridWidth centreSpace + 0) =
          spec_field (metaballs centreSpace) (real 0 * 1) (real 0 * 1)"
    by (rule draw_nth) (simp_all add: centreSpace_def)
  also have "\<dots> = PInf"
    by (simp add: centreSpace_def spec_field_def spec_contribution_def distance_def jsnum_ops)
  finally show ?thesis
    by (simp add: centreSpace_def distance_def)
qed

text \<open>
  Claim C7 at the input where the code departs from it: with no metaballs,
  \<^verbatim>\<open>onClick\<close> throws a \<^verbatim>\<open>TypeError\<close> after it has set the clicking flag and the pointer
  position. With at least one metaball the call returns, and the nearest metaball is
  marked as dragged exactly when its distance is below 200 (\<open>onClick_nonempty\<close> below).
\<close>

theorem onClick_no_metaballs:
  "onClick (s\<lparr>metaballs := []\<rparr>) cx cy =
     Throws TypeError (s\<lparr>metaballs := [], clicking := True, clickX := cx, clickY := cy\<rparr>)"
  by (simp add: onClick_def)

lemma onClick_nonempty:
  assumes "metaballs s \<noteq> []"
  shows "\<exists>i < length (metaballs s).
           (\<forall>j < length (metaballs s).
              distance (x (metaballs s ! i)) (y (metaballs s ! i)) cx cy
                \<le> distance (x (metaballs s ! j)) (y (metaballs s ! j)) cx cy) \<and>
           onClick s cx cy =
             Returns (if distance (x (metaballs s ! i)) (y (metaballs s ! i)) cx cy < 200
                      then s\<lparr>clicking := True, clickX := cx, clickY := cy,
                             draggedMetaballIndex := int i\<rparr>
                      else s\<lparr>clicking := True, clickX := cx, clickY := cy\<rparr>)"
proof -
  let ?f = "\<lambda>(index, metaball). (metaball, sqrt ((x metaball - cx)\<^sup>2 + (y metaball - cy)\<^sup>2), index)"
  let ?key = "\<lambda>(metaball :: metaball, d :: real, index :: nat). d"
  let ?L = "map ?f (enumerate 0 (metaballs s))"
  let ?S = "sort_key ?key ?L"
  have "length ?S = length (metaballs s)" by simp
  then have "?S \<noteq> []" using assms by (metis length_0_conv)
  then obtain m d i rest where S: "?S = (m, d, i) # rest"
    by (cases ?S) auto
  have "(m, d, i) \<in> set ?S" by (simp add: S)
  then have "(m, d, i) \<in> set ?L" by simp
  then have i: "i < length (metaballs s)" and m: "m = metaballs s ! i"
    and d: "d = distance (x m) (y m) cx cy"
    by (auto simp: in_set_enumerate_eq distance_def)
  have "sorted (map ?key ?S)" by (rule sorted_sort_key)
  then have least: "\<forall>e \<in> set ?S. d \<le> ?key e"
    by (auto simp: S)
  have min: "d \<le> distance (x (metaballs s ! j)) (y (metaballs s ! j)) cx cy"
    if "j < length (metaballs s)" for j
  proof -
    have "(j, metaballs s ! j) \<in> set (enumerate 0 (metaballs s))"
      using that by (simp add: in_set_enumerate_eq)
    then have "?f (j, metaballs s ! j) \<in> set ?L" unfolding set_map by (rule imageI)
    then have "?f (j, metaballs s ! j) \<in> set ?S" by simp
    with least have "d \<le> ?key (?f (j, metaballs s ! j))" by blast
    then show ?thesis by (simp add: distance_def)
  qed
  have "onClick s cx cy =
          Returns (if d < 200
                   then s\<lparr>clicking := True, clickX := cx, clickY := cy, draggedMetaballIndex := int i\<rparr>
                   else s\<lparr>clicking := True, clickX := cx, clickY := cy\<rparr>)"
    using S by (simp add: onClick_def)
  then show ?thesis
    using i min unfolding d m by blast
qed

section \<open>Properties of the vertex shader\<close>























text \<open>The number of lines of each of the sixteen cases, in the order of the table.\<close>

lemma spec_pairs_rows:
  "map spec_pairs spec_table = [0, 1, 1, 1, 1, 2, 1, 1, 1, 1, 2, 1, 1, 1, 1, 0]"
  by (simp add: spec_pairs_def spec_table_def)




text \<open>
  Claim C4. For endpoints \<open>(x1, y1)\<close> and \<open>(x2, y2)\<close> with different finite field values
  \<open>z1\<close> and \<open>z2\<close>, \<^verbatim>\<open>vertexInterp\<close> returns \<open>p1 + t * (p2 - p1)\<close> with
  \<open>t = (iso - z1) / (z2 - z1)\<close>; for the values 0.5 and 1.5 at \<open>(0, 0)\<close> and \<open>(1, 0)\<close> and
  the iso level 1 the result is \<open>(0.5, 0)\<close>.
\<close>

theorem vertexInterp_linear:
  assumes "z2 \<noteq> z1"
  shows "vertexInterp level (Fin x1, Fin y1, Fin z1) (Fin x2, Fin y2, Fin z2) =
           (Fin (x1 + (level - z1) / (z2 - z1) * (x2 - x1)),
            Fin (y1 + (level - z1) / (z2 - z1) * (y2 - y1))) \<and>
         vertexInterp 1 (Fin 0, Fin 0, Fin 0.5) (Fin 1, Fin 0, Fin 1.5) = (Fin 0.5, Fin 0)"
  using assms
  by (simp add: vertexInterp_def vec2_add_def vec2_scale_def vec2_sub_def vec3_xy_def vec3_z_def
      jsnum_ops Let_def)

theorem vertexInterp_linear_witness:
  "(5 :: real) \<noteq> 1 \<and> vertexInterp 2 (Fin 0, Fin 0, Fin 1) (Fin 0, Fin 4, Fin 5) = (Fin 0, Fin 1)"
  using vertexInterp_linear [of 5 1 2 0 0 0 4] by simp












text \<open>\<^verbatim>\<open>vertexInterp\<close> itself on equal field values: the quotient \<open>0 / 0\<close> is NaN.\<close>

lemma vertexInterp_equal_values:
  "vertexInterp 1 (Fin 0, Fin 0, Fin 1) (Fin 1, Fin 0, Fin 1) = (NaN, NaN)"
  by (simp add: vertexInterp_def vec2_add_def vec2_scale_def vec2_sub_def vec3_xy_def vec3_z_def
      jsnum_ops Let_def)

end
